theory Spec2Isabelle
  imports Main "HOL-Library.Word"
begin

section \<open>The delegate container of epDelegate.h\<close>

text \<open>
  The header declares the class template \<open>Delegate<RetType,ArgType>\<close>, its partial
  specialisation \<open>Delegate<RetType,void>\<close> and two free \<open>operator +\<close> templates. A
  delegate owns a \<open>std::vector\<close> of function pointers (\<open>m_funcList\<close>), a lock and the
  lock policy the lock was made from.

  Function pointers are compared by identity only (\<open>*iter==func\<close>), so the type \<open>'f\<close>
  of the model stands for the addresses of the program's functions. What a function
  does when it is called is given by a separate table (see \<open>call\<close> below).

  The two classes have the same members, and most member functions have the same text
  in both. One definition stands for both where the text is the same; where it differs
  (\<open>operator -=(FuncType)\<close>, \<open>operator -(FuncType)\<close> and \<open>operator ()\<close>) the
  definition for the specialisation has the suffix \<open>_void\<close>.
\<close>

subsection \<open>Data\<close>

text \<open>
  Modelled from the spec: the enumeration \<open>LockPolicy\<close> is declared in a header that
  is not among the sources at hand. The three enumerators are the ones the
  constructors switch over (the specification's critical-section, mutex and no-lock
  policies); \<open>LOCK_POLICY_OTHER\<close> stands for every value that reaches the
  \<open>default:\<close> label. The lock classes are declared elsewhere too; only their names
  matter here.
\<close>

datatype LockPolicy =
    LOCK_POLICY_CRITICALSECTION
  | LOCK_POLICY_MUTEX
  | LOCK_POLICY_NONE
  | LOCK_POLICY_OTHER

datatype BaseLock = CriticalSectionEx | Mutex | NoLock

text \<open>
  C++ gives no meaning to three things the header does; each is an error value of the
  model. \<open>PastTheEnd\<close>: dereferencing \<open>end()\<close>. \<open>NoReturnValue\<close>: control
  reaches the closing brace of a function whose return type is not \<open>void\<close>.
  \<open>InvalidIterator\<close>: an iterator is used after \<open>std::vector::erase\<close> has invalidated
  it. \<open>OutOfRange\<close> is the failure raised by \<open>EP_VERIFY_OUT_OF_RANGE\<close>, the only
  failure that the header itself checks for and reports.
\<close>

datatype error = OutOfRange | PastTheEnd | NoReturnValue | InvalidIterator

fun explicit_failure :: "error \<Rightarrow> bool" where
  "explicit_failure OutOfRange = True"
| "explicit_failure PastTheEnd = False"
| "explicit_failure NoReturnValue = False"
| "explicit_failure InvalidIterator = False"

record 'f Delegate =
  m_funcList :: "'f list"
  m_lock :: "BaseLock option"
  m_lockPolicy :: LockPolicy

text \<open>The \<open>switch\<close> that all three constructors share; \<open>None\<close> is \<open>NULL\<close>.\<close>

fun new_lock :: "LockPolicy \<Rightarrow> BaseLock option" where
  "new_lock LOCK_POLICY_CRITICALSECTION = Some CriticalSectionEx"
| "new_lock LOCK_POLICY_MUTEX = Some Mutex"
| "new_lock LOCK_POLICY_NONE = Some NoLock"
| "new_lock LOCK_POLICY_OTHER = None"

definition Delegate_default :: "LockPolicy \<Rightarrow> 'f Delegate" where
  "Delegate_default lockPolicyType =
     \<lparr>m_funcList = [], m_lock = new_lock lockPolicyType, m_lockPolicy = lockPolicyType\<rparr>"

definition Delegate_func :: "'f \<Rightarrow> LockPolicy \<Rightarrow> 'f Delegate" where
  "Delegate_func func lockPolicyType =
     \<lparr>m_funcList = [func], m_lock = new_lock lockPolicyType, m_lockPolicy = lockPolicyType\<rparr>"

definition Delegate_copy :: "'f Delegate \<Rightarrow> 'f Delegate" where
  "Delegate_copy orig =
     \<lparr>m_funcList = m_funcList orig, m_lock = new_lock (m_lockPolicy orig),
      m_lockPolicy = m_lockPolicy orig\<rparr>"

subsection \<open>The vector and its iterators\<close>

text \<open>
  An iterator of a vector is a position \<open>Iter i\<close> with \<open>0 \<le> i \<le> size\<close>, where
  \<open>Iter size\<close> is \<open>end()\<close>. \<open>erase\<close> removes the element at a position and returns the
  iterator to the element that followed it; every iterator at or after the erased
  position, the argument included, is invalid afterwards. A loop variable that is not
  assigned the result of \<open>erase\<close> therefore holds \<open>Invalidated\<close>.
\<close>

datatype iterator = Iter nat | Invalidated

definition push_back :: "'f list \<Rightarrow> 'f \<Rightarrow> 'f list" where
  "push_back v x = v @ [x]"

definition erase :: "'f list \<Rightarrow> nat \<Rightarrow> 'f list \<times> iterator" where
  "erase v i = (take i v @ drop (Suc i) v, Iter i)"

subsection \<open>Appending: \<open>operator +=\<close>\<close>

text \<open>
  Every mutating operator first builds a \<open>LockObj\<close> from \<open>m_lock\<close>. The class is
  declared elsewhere; it acquires the lock for the scope and releases it at the end,
  and it never touches \<open>m_funcList\<close>, so the sequential model leaves it out.

  \<open>operator +=(FuncType)\<close>, lines 180-185 (and 479-484 in the specialisation).
\<close>

definition op_pluseq_func :: "'f Delegate \<Rightarrow> 'f \<Rightarrow> 'f Delegate" where
  "op_pluseq_func this func = this\<lparr>m_funcList := push_back (m_funcList this) func\<rparr>"

text \<open>
  \<open>operator +=(const Delegate &right)\<close>, lines 204-213 (and 503-512). The loop body is
  \<open>m_funcList.push_back(iter)\<close>: it hands the iterator itself to \<open>push_back\<close>, not the
  function pointer \<open>*iter\<close> it refers to. C++ has no conversion from a vector iterator
  to a function pointer, so the value that ends up in the vector is a parameter of the
  model: \<open>iter_as_func i\<close> is whatever function pointer the iterator at position \<open>i\<close>
  of \<open>right.m_funcList\<close> is taken for. The targets of \<open>right\<close> are never read.
  \<open>right\<close> is an object other than \<open>*this\<close>.
\<close>

function pluseq_loop :: "(nat \<Rightarrow> 'f) \<Rightarrow> 'f list \<Rightarrow> nat \<Rightarrow> 'f list \<Rightarrow> 'f list" where
  "pluseq_loop iter_as_func right_list iter v =
     (if iter < length right_list
      then pluseq_loop iter_as_func right_list (iter + 1) (push_back v (iter_as_func iter))
      else v)"
  by pat_completeness auto
termination
  by (relation "measure (\<lambda>(c, r, iter, v). length r - iter)") auto

definition op_pluseq_del :: "(nat \<Rightarrow> 'f) \<Rightarrow> 'f Delegate \<Rightarrow> 'f Delegate \<Rightarrow> 'f Delegate" where
  "op_pluseq_del iter_as_func this right =
     this\<lparr>m_funcList := pluseq_loop iter_as_func (m_funcList right) 0 (m_funcList this)\<rparr>"

subsection \<open>Removing: \<open>operator -=\<close>\<close>

text \<open>
  \<open>operator -=(FuncType)\<close> of the general template, lines 232-247: the loop variable is
  assigned the result of \<open>erase\<close>.
\<close>

function (sequential) remove_loop_assign :: "'f \<Rightarrow> 'f list \<Rightarrow> iterator \<Rightarrow> error + 'f list" where
  "remove_loop_assign func v Invalidated = Inl InvalidIterator"
| "remove_loop_assign func v (Iter i) =
     (if i < length v
      then (if v ! i = func
            then remove_loop_assign func (fst (erase v i)) (snd (erase v i))
            else remove_loop_assign func v (Iter (i + 1)))
      else Inr v)"
  by pat_completeness auto
termination
  by (relation "measure (\<lambda>(func, v, it).
        case it of Invalidated \<Rightarrow> 0 | Iter i \<Rightarrow> (length v - i) + length v)")
     (auto simp: erase_def)

definition op_minuseq_func :: "'f Delegate \<Rightarrow> 'f \<Rightarrow> error + 'f Delegate" where
  "op_minuseq_func this func =
     (case remove_loop_assign func (m_funcList this) (Iter 0) of
        Inl e \<Rightarrow> Inl e
      | Inr v \<Rightarrow> Inr (this\<lparr>m_funcList := v\<rparr>))"

text \<open>
  The same loop as it is written in the three other places: \<open>operator -=(FuncType)\<close> of
  the \<open>void\<close> specialisation (lines 531-546) and the inner loop of
  \<open>operator -=(const Delegate &)\<close> in both classes (lines 273-281 and 572-580). There
  the statement is \<open>m_funcList.erase(iter);\<close> and the result of \<open>erase\<close> is dropped, so
  the loop goes on with the invalidated iterator.
\<close>

function (sequential) remove_loop_drop :: "'f \<Rightarrow> 'f list \<Rightarrow> iterator \<Rightarrow> error + 'f list" where
  "remove_loop_drop func v Invalidated = Inl InvalidIterator"
| "remove_loop_drop func v (Iter i) =
     (if i < length v
      then (if v ! i = func
            then remove_loop_drop func (fst (erase v i)) Invalidated
            else remove_loop_drop func v (Iter (i + 1)))
      else Inr v)"
  by pat_completeness auto
termination
  by (relation "measure (\<lambda>(func, v, it).
        case it of Invalidated \<Rightarrow> 0 | Iter i \<Rightarrow> (length v - i) + length v)")
     (auto simp: erase_def)

definition op_minuseq_func_void :: "'f Delegate \<Rightarrow> 'f \<Rightarrow> error + 'f Delegate" where
  "op_minuseq_func_void this func =
     (case remove_loop_drop func (m_funcList this) (Iter 0) of
        Inl e \<Rightarrow> Inl e
      | Inr v \<Rightarrow> Inr (this\<lparr>m_funcList := v\<rparr>))"

text \<open>
  \<open>operator -=(const Delegate &right)\<close>, lines 266-284 and 565-583, the same text in
  both classes. The outer loop walks \<open>right.m_funcList\<close> (the list argument below is
  what \<open>rightIter\<close> has still to visit); \<open>right\<close> is an object other than \<open>*this\<close>,
  so erasing from \<open>m_funcList\<close> leaves \<open>rightIter\<close> valid.
\<close>

fun minuseq_del_loop :: "'f list \<Rightarrow> 'f list \<Rightarrow> error + 'f list" where
  "minuseq_del_loop [] v = Inr v"
| "minuseq_del_loop (r # rest) v =
     (case remove_loop_drop r v (Iter 0) of
        Inl e \<Rightarrow> Inl e
      | Inr v' \<Rightarrow> minuseq_del_loop rest v')"

definition op_minuseq_del :: "'f Delegate \<Rightarrow> 'f Delegate \<Rightarrow> error + 'f Delegate" where
  "op_minuseq_del this right =
     (case minuseq_del_loop (m_funcList right) (m_funcList this) of
        Inl e \<Rightarrow> Inl e
      | Inr v \<Rightarrow> Inr (this\<lparr>m_funcList := v\<rparr>))"

subsection \<open>The operators that return a new delegate\<close>

text \<open>
  \<open>operator +\<close> and \<open>operator -\<close> are \<open>const\<close> members: they copy \<open>*this\<close> into a
  local \<open>ret\<close>, apply the compound operator to \<open>ret\<close> and return it. To say what
  happens to \<open>*this\<close>, objects live in a store: the caller's delegates are the entries
  of a list, an address is an index into it, and the local \<open>ret\<close> is a new entry at
  the end, which is gone when the operator is left. The operators return their result
  (or the error that stopped them) together with the store they leave behind.
  \<open>this\<close> and \<open>right\<close> are addresses of delegates of the caller, possibly the same.
\<close>

type_synonym 'f store = "'f Delegate list"

definition op_plus_func :: "'f store \<Rightarrow> nat \<Rightarrow> 'f \<Rightarrow> (error + 'f Delegate) \<times> 'f store" where
  "op_plus_func st this func =
     (let ret = length st;
          st1 = st @ [Delegate_copy (st ! this)];
          st2 = st1[ret := op_pluseq_func (st1 ! ret) func]
      in (Inr (st2 ! ret), take ret st2))"

definition op_plus_del ::
  "(nat \<Rightarrow> 'f) \<Rightarrow> 'f store \<Rightarrow> nat \<Rightarrow> nat \<Rightarrow> (error + 'f Delegate) \<times> 'f store" where
  "op_plus_del iter_as_func st this right =
     (let ret = length st;
          st1 = st @ [Delegate_copy (st ! this)];
          st2 = st1[ret := op_pluseq_del iter_as_func (st1 ! ret) (st1 ! right)]
      in (Inr (st2 ! ret), take ret st2))"

definition op_minus_func :: "'f store \<Rightarrow> nat \<Rightarrow> 'f \<Rightarrow> (error + 'f Delegate) \<times> 'f store" where
  "op_minus_func st this func =
     (let ret = length st;
          st1 = st @ [Delegate_copy (st ! this)]
      in case op_minuseq_func (st1 ! ret) func of
           Inl e \<Rightarrow> (Inl e, take ret st1)
         | Inr d \<Rightarrow> (let st2 = st1[ret := d] in (Inr (st2 ! ret), take ret st2)))"

definition op_minus_func_void :: "'f store \<Rightarrow> nat \<Rightarrow> 'f \<Rightarrow> (error + 'f Delegate) \<times> 'f store" where
  "op_minus_func_void st this func =
     (let ret = length st;
          st1 = st @ [Delegate_copy (st ! this)]
      in case op_minuseq_func_void (st1 ! ret) func of
           Inl e \<Rightarrow> (Inl e, take ret st1)
         | Inr d \<Rightarrow> (let st2 = st1[ret := d] in (Inr (st2 ! ret), take ret st2)))"

definition op_minus_del :: "'f store \<Rightarrow> nat \<Rightarrow> nat \<Rightarrow> (error + 'f Delegate) \<times> 'f store" where
  "op_minus_del st this right =
     (let ret = length st;
          st1 = st @ [Delegate_copy (st ! this)]
      in case op_minuseq_del (st1 ! ret) (st1 ! right) of
           Inl e \<Rightarrow> (Inl e, take ret st1)
         | Inr d \<Rightarrow> (let st2 = st1[ret := d] in (Inr (st2 ! ret), take ret st2)))"

subsection \<open>The free operator\<close>

text \<open>
  \<open>operator +(FuncType, const Delegate &)\<close>, lines 639-645. It builds \<open>ret\<close> from
  \<open>func\<close> with the default lock policy, the macro \<open>EP_LOCK_POLICY\<close> of a header that
  is not at hand; it is a parameter here.

  The second template, lines 647-653, declares an \<open>operator +\<close> whose two parameters
  are both function pointers. C++ admits an overloaded operator only if a parameter
  has a class or enumeration type, and for \<open>f + g\<close> on two pointers it looks at the
  built-in operators only. No program can call that template, so it has no
  counterpart here.
\<close>

definition plus_func_del ::
  "(nat \<Rightarrow> 'f) \<Rightarrow> LockPolicy \<Rightarrow> 'f \<Rightarrow> 'f Delegate \<Rightarrow> 'f Delegate" where
  "plus_func_del iter_as_func EP_LOCK_POLICY func right =
     op_pluseq_del iter_as_func (Delegate_func func EP_LOCK_POLICY) right"

subsection \<open>Indexing: \<open>operator []\<close>\<close>

text \<open>
  Modelled from the spec: the macro \<open>EP_VERIFY_OUT_OF_RANGE\<close> is defined in a header
  that is not among the sources at hand. By the specification an index that is not
  below the count is surfaced to the caller as a range violation, with no partial
  result: the macro raises when its condition is false and does nothing otherwise.
\<close>

definition EP_VERIFY_OUT_OF_RANGE :: "bool \<Rightarrow> error + unit" where
  "EP_VERIFY_OUT_OF_RANGE cond = (if cond then Inr () else Inl OutOfRange)"

text \<open>
  Lines 303-310 and 602-609, the same text in both classes. \<open>idx\<close> is an
  \<open>unsigned int\<close>; the iterator starts at \<open>begin()\<close> and is advanced by \<open>idx\<close>.
\<close>

definition op_index :: "'f Delegate \<Rightarrow> 32 word \<Rightarrow> error + 'f" where
  "op_index this idx =
     (case EP_VERIFY_OUT_OF_RANGE (unat idx < length (m_funcList this)) of
        Inl e \<Rightarrow> Inl e
      | Inr u \<Rightarrow>
          (let iter = 0 + unat idx
           in if iter < length (m_funcList this)
              then Inr (m_funcList this ! iter)
              else Inl PastTheEnd))"

subsection \<open>Invoking: \<open>operator ()\<close>\<close>

text \<open>
  What calling a function pointer does is given by the program: a table \<open>P\<close> that maps
  a function, its argument and the state of the program to the function's result and
  the state it leaves. The world of an invocation is that state together with the log
  of the calls made so far; \<open>call\<close> runs one function and appends to the log.
\<close>

record ('s, 'c) world =
  user :: 's
  calls :: "'c list"

definition call ::
  "('f \<Rightarrow> 'a \<Rightarrow> 's \<Rightarrow> 'r \<times> 's) \<Rightarrow> 'f \<Rightarrow> 'a \<Rightarrow> ('s, 'f \<times> 'a) world
     \<Rightarrow> 'r \<times> ('s, 'f \<times> 'a) world" where
  "call P f arg w =
     (fst (P f arg (user w)),
      \<lparr>user = snd (P f arg (user w)), calls = calls w @ [(f, arg)]\<rparr>)"

definition call_void ::
  "('f \<Rightarrow> 's \<Rightarrow> 'r \<times> 's) \<Rightarrow> 'f \<Rightarrow> ('s, 'f) world \<Rightarrow> 'r \<times> ('s, 'f) world" where
  "call_void P f w =
     (fst (P f (user w)), \<lparr>user = snd (P f (user w)), calls = calls w @ [f]\<rparr>)"

text \<open>
  \<open>operator ()(ArgType arg)\<close>, lines 317-331. The loop calls every target but the last
  and leaves with \<open>break\<close> at the last one; the \<open>return\<close> after the loop calls the
  target \<open>iter\<close> is left at.
\<close>

function invoke_loop ::
  "('f \<Rightarrow> 'a \<Rightarrow> 's \<Rightarrow> 'r \<times> 's) \<Rightarrow> 'f list \<Rightarrow> 'a \<Rightarrow> nat \<Rightarrow> ('s, 'f \<times> 'a) world
     \<Rightarrow> nat \<times> ('s, 'f \<times> 'a) world" where
  "invoke_loop P v arg iter w =
     (if iter < length v
      then (let lastIterCheck = iter + 1
            in if lastIterCheck = length v
               then (iter, w)
               else invoke_loop P v arg (iter + 1) (snd (call P (v ! iter) arg w)))
      else (iter, w))"
  by pat_completeness auto
termination
  by (relation "measure (\<lambda>(P, v, arg, iter, w). length v - iter)") auto

definition op_invoke ::
  "('f \<Rightarrow> 'a \<Rightarrow> 's \<Rightarrow> 'r \<times> 's) \<Rightarrow> 'f Delegate \<Rightarrow> 'a \<Rightarrow> ('s, 'f \<times> 'a) world
     \<Rightarrow> error + 'r \<times> ('s, 'f \<times> 'a) world" where
  "op_invoke P this arg w =
     (case invoke_loop P (m_funcList this) arg 0 w of
        (iter, w') \<Rightarrow>
          if iter < length (m_funcList this)
          then Inr (call P (m_funcList this ! iter) arg w')
          else Inl PastTheEnd)"

text \<open>
  \<open>operator ()()\<close> of the \<open>void\<close> specialisation, lines 615-628. Here the last target
  is called by a \<open>return\<close> inside the loop, and nothing follows the loop: when the loop
  ends, control reaches the closing brace of the function. What that means depends on
  \<open>RetType\<close>, which the model takes as the parameter \<open>RetType_void\<close>: it is
  \<open>Some r\<close> when \<open>RetType\<close> is \<open>void\<close> (\<open>r\<close> is then the one value of the result
  type), and the function returns normally; it is \<open>None\<close> for every other \<open>RetType\<close>,
  where C++ gives the function's result no meaning.
\<close>

function invoke_void_loop ::
  "('f \<Rightarrow> 's \<Rightarrow> 'r \<times> 's) \<Rightarrow> 'r option \<Rightarrow> 'f list \<Rightarrow> nat \<Rightarrow> ('s, 'f) world
     \<Rightarrow> error + 'r \<times> ('s, 'f) world" where
  "invoke_void_loop P RetType_void v iter w =
     (if iter < length v
      then (let lastIterCheck = iter + 1
            in if lastIterCheck = length v
               then Inr (call_void P (v ! iter) w)
               else invoke_void_loop P RetType_void v (iter + 1)
                      (snd (call_void P (v ! iter) w)))
      else (case RetType_void of
              Some r \<Rightarrow> Inr (r, w)
            | None \<Rightarrow> Inl NoReturnValue))"
  by pat_completeness auto
termination
  by (relation "measure (\<lambda>(P, rv, v, iter, w). length v - iter)") auto

definition op_invoke_void ::
  "('f \<Rightarrow> 's \<Rightarrow> 'r \<times> 's) \<Rightarrow> 'r option \<Rightarrow> 'f Delegate \<Rightarrow> ('s, 'f) world
     \<Rightarrow> error + 'r \<times> ('s, 'f) world" where
  "op_invoke_void P RetType_void this w =
     invoke_void_loop P RetType_void (m_funcList this) 0 w"

section \<open>Properties\<close>

text \<open>
  The loops are unfolded one step at a time, by hand, in the proofs below.
\<close>

declare pluseq_loop.simps [simp del] remove_loop_assign.simps [simp del]
  remove_loop_drop.simps [simp del] invoke_loop.simps [simp del]
  invoke_void_loop.simps [simp del]

subsection \<open>What the loops compute\<close>

lemma pluseq_loop_eq:
  "pluseq_loop c r iter v = v @ map c [iter..<length r]"
proof (induction c r iter v rule: pluseq_loop.induct)
  case (1 c r iter v)
  show ?case
  proof (cases "iter < length r")
    case True
    with "1" show ?thesis
      by (subst pluseq_loop.simps) (simp add: push_back_def upt_conv_Cons)
  next
    case False
    then show ?thesis by (subst pluseq_loop.simps) simp
  qed
qed

lemma drop_erase: "i < length v \<Longrightarrow> drop i (fst (erase v i)) = drop (Suc i) v"
  by (simp add: erase_def)

lemma take_erase: "i < length v \<Longrightarrow> take i (fst (erase v i)) = take i v"
  by (simp add: erase_def)

lemma length_erase: "i < length v \<Longrightarrow> length (fst (erase v i)) = length v - 1"
  by (simp add: erase_def)

lemma snd_erase: "snd (erase v i) = Iter i"
  by (simp add: erase_def)

lemma remove_loop_assign_eq:
  "i \<le> length v \<Longrightarrow>
   remove_loop_assign func v (Iter i) = Inr (take i v @ filter (\<lambda>x. x \<noteq> func) (drop i v))"
proof (induction func v "Iter i" arbitrary: i rule: remove_loop_assign.induct)
  case (2 func v i)
  show ?case
  proof (cases "i < length v")
    case False
    with "2.prems" show ?thesis
      by (subst remove_loop_assign.simps) simp
  next
    case lt: True
    have d: "drop i v = v ! i # drop (Suc i) v"
      using lt by (simp add: Cons_nth_drop_Suc)
    show ?thesis
    proof (cases "v ! i = func")
      case True
      have le: "i \<le> length (fst (erase v i))"
        using lt by (simp add: length_erase)
      have "remove_loop_assign func (fst (erase v i)) (snd (erase v i)) =
            Inr (take i (fst (erase v i)) @ filter (\<lambda>x. x \<noteq> func) (drop i (fst (erase v i))))"
        using "2.hyps"(1)[OF lt True snd_erase le] by (simp add: snd_erase)
      then have "remove_loop_assign func (fst (erase v i)) (snd (erase v i)) =
            Inr (take i v @ filter (\<lambda>x. x \<noteq> func) (drop (Suc i) v))"
        using lt by (simp only: take_erase drop_erase)
      then show ?thesis
        using lt True d by (subst remove_loop_assign.simps) simp
    next
      case False
      have "remove_loop_assign func v (Iter (i + 1)) =
            Inr (take (i + 1) v @ filter (\<lambda>x. x \<noteq> func) (drop (i + 1) v))"
        using "2.hyps"(2)[OF lt False] lt by simp
      moreover have "take (Suc i) v = take i v @ [v ! i]"
        using lt by (simp add: take_Suc_conv_app_nth)
      ultimately show ?thesis
        using lt False d by (subst remove_loop_assign.simps) simp
    qed
  qed
qed

lemma remove_loop_drop_eq:
  "i \<le> length v \<Longrightarrow>
   remove_loop_drop func v (Iter i) =
     (if func \<in> set (drop i v) then Inl InvalidIterator else Inr v)"
proof (induction func v "Iter i" arbitrary: i rule: remove_loop_drop.induct)
  case (2 func v i)
  show ?case
  proof (cases "i < length v")
    case False
    with "2.prems" show ?thesis
      by (subst remove_loop_drop.simps) simp
  next
    case lt: True
    have d: "drop i v = v ! i # drop (Suc i) v"
      using lt by (simp add: Cons_nth_drop_Suc)
    show ?thesis
    proof (cases "v ! i = func")
      case True
      then show ?thesis
        using lt d by (subst remove_loop_drop.simps) (simp add: remove_loop_drop.simps(1))
    next
      case False
      have "remove_loop_drop func v (Iter (i + 1)) =
            (if func \<in> set (drop (i + 1) v) then Inl InvalidIterator else Inr v)"
        using "2.hyps"[OF lt False] lt by simp
      then show ?thesis
        using lt False d by (subst remove_loop_drop.simps) auto
    qed
  qed
qed

lemma minuseq_del_loop_eq:
  "minuseq_del_loop r v = (if set r \<inter> set v = {} then Inr v else Inl InvalidIterator)"
  by (induction r arbitrary: v) (auto simp: remove_loop_drop_eq)

subsection \<open>Invocation\<close>

text \<open>
  Calling a list of targets one after the other extends the log by one entry for each
  target, in the order of the list.
\<close>

lemma calls_fold_call:
  "calls (fold (\<lambda>f w. snd (call P f x w)) fs w) = calls w @ map (\<lambda>f. (f, x)) fs"
  by (induction fs arbitrary: w) (simp_all add: call_def)

lemma calls_fold_call_void:
  "calls (fold (\<lambda>f w. snd (call_void P f w)) fs w) = calls w @ fs"
  by (induction fs arbitrary: w) (simp_all add: call_void_def)

lemma drop_butlast_step:
  assumes "Suc iter < length v"
  shows "drop iter (butlast v) = v ! iter # drop (Suc iter) (butlast v)"
proof -
  have "iter < length (butlast v)" using assms by simp
  then have "drop iter (butlast v) = butlast v ! iter # drop (Suc iter) (butlast v)"
    by (simp add: Cons_nth_drop_Suc)
  moreover have "butlast v ! iter = v ! iter"
    using assms by (simp add: nth_butlast)
  ultimately show ?thesis by simp
qed

lemma invoke_loop_eq:
  "iter < length v \<Longrightarrow>
   invoke_loop P v x iter w =
     (length v - 1, fold (\<lambda>f w. snd (call P f x w)) (drop iter (butlast v)) w)"
proof (induction P v x iter w rule: invoke_loop.induct)
  case (1 P v x iter w)
  show ?case
  proof (cases "iter + 1 = length v")
    case True
    then show ?thesis
      by (subst invoke_loop.simps) auto
  next
    case False
    with "1.prems" have lt: "Suc iter < length v" by simp
    have "invoke_loop P v x (iter + 1) (snd (call P (v ! iter) x w)) =
          (length v - 1,
           fold (\<lambda>f w. snd (call P f x w)) (drop (iter + 1) (butlast v))
             (snd (call P (v ! iter) x w)))"
      using "1.IH"[OF "1.prems" refl False] lt by simp
    then show ?thesis
      using "1.prems" False drop_butlast_step[OF lt]
      by (subst invoke_loop.simps) simp
  qed
qed

lemma invoke_loop_empty: "invoke_loop P [] x 0 w = (0, w)"
  by (subst invoke_loop.simps) simp

lemma op_invoke_nonempty:
  assumes "m_funcList d \<noteq> []"
  shows "op_invoke P d x w =
         Inr (call P (last (m_funcList d)) x
                (fold (\<lambda>f w. snd (call P f x w)) (butlast (m_funcList d)) w))"
proof -
  have "0 < length (m_funcList d)" using assms by simp
  then have "invoke_loop P (m_funcList d) x 0 w =
        (length (m_funcList d) - 1,
         fold (\<lambda>f w. snd (call P f x w)) (butlast (m_funcList d)) w)"
    using invoke_loop_eq[of 0 "m_funcList d" P x w] by simp
  then show ?thesis
    using assms by (simp add: op_invoke_def last_conv_nth)
qed

lemma op_invoke_empty:
  "m_funcList d = [] \<Longrightarrow> op_invoke P d x w = Inl PastTheEnd"
  by (simp add: op_invoke_def invoke_loop_empty)

lemma invoke_void_loop_eq:
  "iter < length v \<Longrightarrow>
   invoke_void_loop P rv v iter w =
     Inr (call_void P (last v)
            (fold (\<lambda>f w. snd (call_void P f w)) (drop iter (butlast v)) w))"
proof (induction P rv v iter w rule: invoke_void_loop.induct)
  case (1 P rv v iter w)
  show ?case
  proof (cases "iter + 1 = length v")
    case True
    have "v \<noteq> []" using "1.prems" by auto
    then have "last v = v ! (length v - 1)" by (rule last_conv_nth)
    moreover have "length v - 1 = iter" using True by simp
    ultimately have "v ! iter = last v" by simp
    with True show ?thesis
      by (subst invoke_void_loop.simps) auto
  next
    case False
    with "1.prems" have lt: "Suc iter < length v" by simp
    have "invoke_void_loop P rv v (iter + 1) (snd (call_void P (v ! iter) w)) =
          Inr (call_void P (last v)
                 (fold (\<lambda>f w. snd (call_void P f w)) (drop (iter + 1) (butlast v))
                    (snd (call_void P (v ! iter) w))))"
      using "1.IH"[OF "1.prems" refl False] lt by simp
    then show ?thesis
      using "1.prems" False drop_butlast_step[OF lt]
      by (subst invoke_void_loop.simps) simp
  qed
qed

lemma op_invoke_void_nonempty:
  assumes "m_funcList d \<noteq> []"
  shows "op_invoke_void P rv d w =
         Inr (call_void P (last (m_funcList d))
                (fold (\<lambda>f w. snd (call_void P f w)) (butlast (m_funcList d)) w))"
  using assms invoke_void_loop_eq[of 0 "m_funcList d" P rv w]
  by (simp add: op_invoke_void_def)

lemma op_invoke_void_empty:
  "m_funcList d = [] \<Longrightarrow>
   op_invoke_void P rv d w = (case rv of Some r \<Rightarrow> Inr (r, w) | None \<Rightarrow> Inl NoReturnValue)"
  by (simp add: op_invoke_void_def invoke_void_loop.simps)


lemma call_fold_last:
  assumes "fs \<noteq> []"
  shows "call P (last fs) x (fold (\<lambda>f w. snd (call P f x w)) (butlast fs) w) =
         (fst (P (last fs) x (user (fold (\<lambda>f w. snd (call P f x w)) (butlast fs) w))),
          fold (\<lambda>f w. snd (call P f x w)) fs w)"
proof -
  have "fold (\<lambda>f w. snd (call P f x w)) (butlast fs @ [last fs]) w =
        snd (call P (last fs) x (fold (\<lambda>f w. snd (call P f x w)) (butlast fs) w))"
    by simp
  then have "fold (\<lambda>f w. snd (call P f x w)) fs w =
        snd (call P (last fs) x (fold (\<lambda>f w. snd (call P f x w)) (butlast fs) w))"
    using assms by simp
  then show ?thesis by (simp add: call_def)
qed

lemma call_void_fold_last:
  assumes "fs \<noteq> []"
  shows "call_void P (last fs) (fold (\<lambda>f w. snd (call_void P f w)) (butlast fs) w) =
         (fst (P (last fs) (user (fold (\<lambda>f w. snd (call_void P f w)) (butlast fs) w))),
          fold (\<lambda>f w. snd (call_void P f w)) fs w)"
proof -
  have "fold (\<lambda>f w. snd (call_void P f w)) (butlast fs @ [last fs]) w =
        snd (call_void P (last fs) (fold (\<lambda>f w. snd (call_void P f w)) (butlast fs) w))"
    by simp
  then have "fold (\<lambda>f w. snd (call_void P f w)) fs w =
        snd (call_void P (last fs) (fold (\<lambda>f w. snd (call_void P f w)) (butlast fs) w))"
    using assms by simp
  then show ?thesis by (simp add: call_void_def)
qed

text \<open>
  Claim C1. For a delegate whose target sequence is not empty, invoking it with \<open>x\<close>
  calls every stored target exactly once, in the order of the sequence, each with
  \<open>x\<close>: the world after the invocation is the one reached by calling the targets one
  after the other, and the log of calls grows by exactly one entry \<open>(f, x)\<close> for each
  target \<open>f\<close>, in order. The value returned is the result of the last target, called
  after all the others; the results of the others are dropped. The same holds for the
  specialisation without an argument, whatever \<open>RetType\<close> is.
\<close>

theorem invoke_calls_each_target_once_in_order:
  assumes "m_funcList d \<noteq> []"
  shows "op_invoke P d x w =
           Inr (fst (P (last (m_funcList d)) x
                       (user (fold (\<lambda>f w. snd (call P f x w)) (butlast (m_funcList d)) w))),
                fold (\<lambda>f w. snd (call P f x w)) (m_funcList d) w)
       \<and> calls (fold (\<lambda>f w. snd (call P f x w)) (m_funcList d) w) =
           calls w @ map (\<lambda>f. (f, x)) (m_funcList d)
       \<and> op_invoke_void Q RetType_void d u =
           Inr (fst (Q (last (m_funcList d))
                       (user (fold (\<lambda>f w. snd (call_void Q f w)) (butlast (m_funcList d)) u))),
                fold (\<lambda>f w. snd (call_void Q f w)) (m_funcList d) u)
       \<and> calls (fold (\<lambda>f w. snd (call_void Q f w)) (m_funcList d) u) =
           calls u @ m_funcList d"
  using assms
  by (simp only: op_invoke_nonempty op_invoke_void_nonempty call_fold_last
        call_void_fold_last calls_fold_call calls_fold_call_void simp_thms)

theorem invoke_calls_each_target_once_in_order_witness:
  "m_funcList \<lparr>m_funcList = [2, 3, 5 :: nat], m_lock = Some NoLock,
               m_lockPolicy = LOCK_POLICY_NONE\<rparr> \<noteq> []
   \<and> op_invoke (\<lambda>f x s. (f * x, s + f))
        \<lparr>m_funcList = [2, 3, 5 :: nat], m_lock = Some NoLock, m_lockPolicy = LOCK_POLICY_NONE\<rparr>
        (10 :: nat) \<lparr>user = 0 :: nat, calls = []\<rparr> =
      Inr (50, \<lparr>user = 10, calls = [(2, 10), (3, 10), (5, 10)]\<rparr>)
   \<and> op_invoke_void (\<lambda>f s. (f + s, s + f)) None
        \<lparr>m_funcList = [2, 3, 5 :: nat], m_lock = Some NoLock, m_lockPolicy = LOCK_POLICY_NONE\<rparr>
        \<lparr>user = 0 :: nat, calls = []\<rparr> =
      Inr (10, \<lparr>user = 10, calls = [2, 3, 5]\<rparr>)"
  using invoke_calls_each_target_once_in_order
    [of "\<lparr>m_funcList = [2, 3, 5 :: nat], m_lock = Some NoLock, m_lockPolicy = LOCK_POLICY_NONE\<rparr>"
        "\<lambda>f x s. (f * x, s + f)" "10 :: nat" "\<lparr>user = 0 :: nat, calls = []\<rparr>"
        "\<lambda>f s. (f + s, s + f)" None "\<lparr>user = 0 :: nat, calls = []\<rparr>"]
  by (simp add: call_def call_void_def)

text \<open>
  Claim C4, as the code has it. Neither \<open>operator ()\<close> checks for an empty target
  sequence, and neither reports a failure of its own. For an empty delegate the general
  template dereferences \<open>end()\<close> in its \<open>return\<close> statement, which C++ leaves
  undefined. The specialisation without an argument leaves its loop and reaches the end
  of the function: when \<open>RetType\<close> is \<open>void\<close> that is a normal return, with no target
  called and the state untouched; for any other \<open>RetType\<close> it is undefined. A delegate
  with at least one target never takes an error branch.
\<close>

theorem invoke_on_empty_is_unchecked:
  "(m_funcList d = [] \<longrightarrow>
       op_invoke P d x w = Inl PastTheEnd
     \<and> op_invoke_void Q None d u = Inl NoReturnValue
     \<and> op_invoke_void Q (Some r) d u = Inr (r, u))
   \<and> (m_funcList d \<noteq> [] \<longrightarrow>
       \<not> isl (op_invoke P d x w) \<and> \<not> isl (op_invoke_void Q RetType_void d u))
   \<and> \<not> explicit_failure PastTheEnd \<and> \<not> explicit_failure NoReturnValue"
proof (cases "m_funcList d = []")
  case True
  then show ?thesis by (simp add: op_invoke_empty op_invoke_void_empty)
next
  case False
  then show ?thesis by (simp add: op_invoke_nonempty op_invoke_void_nonempty)
qed

theorem invoke_on_empty_is_unchecked_witness:
  "m_funcList (Delegate_default LOCK_POLICY_NONE :: nat Delegate) = []
   \<and> op_invoke (\<lambda>f x s. (f * x, s + f)) (Delegate_default LOCK_POLICY_NONE)
       (10 :: nat) \<lparr>user = 0 :: nat, calls = []\<rparr> = Inl PastTheEnd
   \<and> op_invoke_void (\<lambda>f s. (f + s, s + f)) None (Delegate_default LOCK_POLICY_NONE)
       \<lparr>user = 0 :: nat, calls = []\<rparr> = Inl NoReturnValue
   \<and> op_invoke_void (\<lambda>f s. ((), s + f)) (Some ()) (Delegate_default LOCK_POLICY_NONE)
       \<lparr>user = 0 :: nat, calls = []\<rparr> = Inr ((), \<lparr>user = 0, calls = []\<rparr>)
   \<and> m_funcList (Delegate_func (2 :: nat) LOCK_POLICY_NONE) \<noteq> []
   \<and> \<not> isl (op_invoke (\<lambda>f x s. (f * x, s + f)) (Delegate_func (2 :: nat) LOCK_POLICY_NONE)
       (10 :: nat) \<lparr>user = 0 :: nat, calls = []\<rparr>)
   \<and> \<not> isl (op_invoke_void (\<lambda>f s. ((), s + f)) (Some ())
       (Delegate_func (2 :: nat) LOCK_POLICY_NONE) \<lparr>user = 0 :: nat, calls = []\<rparr>)"
  using invoke_on_empty_is_unchecked
    [of "Delegate_default LOCK_POLICY_NONE" "\<lambda>f x s. (f * x, s + f)" "10 :: nat"
        "\<lparr>user = 0 :: nat, calls = []\<rparr>" "\<lambda>f s. (f + s, s + f)"
        "\<lparr>user = 0 :: nat, calls = []\<rparr>"]
    invoke_on_empty_is_unchecked
    [of "Delegate_default LOCK_POLICY_NONE" "\<lambda>f x s. (f * x, s + f)" "10 :: nat"
        "\<lparr>user = 0 :: nat, calls = []\<rparr>" "\<lambda>f s. ((), s + f)"
        "\<lparr>user = 0 :: nat, calls = []\<rparr>" "()"]
    invoke_on_empty_is_unchecked
    [of "Delegate_func (2 :: nat) LOCK_POLICY_NONE" "\<lambda>f x s. (f * x, s + f)" "10 :: nat"
        "\<lparr>user = 0 :: nat, calls = []\<rparr>" "\<lambda>f s. ((), s + f)"
        "\<lparr>user = 0 :: nat, calls = []\<rparr>" "()" "Some ()"]
  by (simp add: Delegate_default_def Delegate_func_def)

text \<open>
  The claim as it is written fails at the empty \<open>Delegate<void,void>\<close>: the delegate
  has no target, and invoking it takes no error branch but returns normally. At the
  empty delegate of the general template the outcome is the dereference of \<open>end()\<close>,
  which is not a failure the code reports.
\<close>

theorem invoke_on_empty_counterexample:
  "m_funcList (Delegate_default LOCK_POLICY_NONE :: nat Delegate) = []
   \<and> \<not> isl (op_invoke_void (curry (Pair () \<circ> snd)) (Some ())
             (Delegate_default LOCK_POLICY_NONE :: nat Delegate)
             \<lparr>user = 0 :: nat, calls = []\<rparr>)
   \<and> op_invoke (curry (curry (Pair (0 :: nat) \<circ> snd)))
        (Delegate_default LOCK_POLICY_NONE :: nat Delegate) (10 :: nat)
        \<lparr>user = 0 :: nat, calls = []\<rparr> = Inl PastTheEnd
   \<and> \<not> explicit_failure PastTheEnd"
  by (simp add: Delegate_default_def op_invoke_empty op_invoke_void_empty)

subsection \<open>The compound operators in closed form\<close>

text \<open>
  Appending a delegate adds one entry for each target of \<open>right\<close>, but the entry is
  the iterator, not the target. Removing a callable with the general template filters
  the vector. The loops that drop the result of \<open>erase\<close> leave the vector as it is
  when nothing matches and run into the invalidated iterator at the first match.
\<close>

lemma op_pluseq_del_eq:
  "op_pluseq_del c d r =
     d\<lparr>m_funcList := m_funcList d @ map c [0..<length (m_funcList r)]\<rparr>"
  by (simp add: op_pluseq_del_def pluseq_loop_eq)

lemma op_minuseq_func_eq:
  "op_minuseq_func d func = Inr (d\<lparr>m_funcList := filter (\<lambda>x. x \<noteq> func) (m_funcList d)\<rparr>)"
  by (simp add: op_minuseq_func_def remove_loop_assign_eq)

lemma op_minuseq_func_void_eq:
  "op_minuseq_func_void d func =
     (if func \<in> set (m_funcList d) then Inl InvalidIterator else Inr d)"
  by (simp add: op_minuseq_func_void_def remove_loop_drop_eq)

lemma op_minuseq_del_eq:
  "op_minuseq_del d r =
     (if set (m_funcList r) \<inter> set (m_funcList d) = {} then Inr d else Inl InvalidIterator)"
  by (simp add: op_minuseq_del_def minuseq_del_loop_eq)

subsection \<open>Appending and removing delegates\<close>

text \<open>
  Claim C2, evaluated at \<open>d1 = Delegate(f1)\<close>, \<open>d2 = Delegate(f2)\<close>. After
  \<open>d1 += d2\<close> the sequence of \<open>d1\<close> is \<open>f1\<close> followed by the iterator that pointed at
  the first entry of \<open>d2\<close>, whatever function pointer that iterator is taken for; the
  target \<open>f2\<close> itself is never read, so the result is the same for any other target
  \<open>f2'\<close> in its place. The same holds for \<open>d3 = d1 + d2\<close>, which copies \<open>d1\<close> and
  appends \<open>d2\<close> to the copy. The claim asks for the sequence \<open>f1, f2\<close>.
\<close>

theorem pluseq_delegate_stores_iterators:
  "m_funcList (op_pluseq_del iter_as_func (Delegate_func f1 lp1) (Delegate_func f2 lp2)) =
     [f1, iter_as_func 0]
   \<and> op_pluseq_del iter_as_func (Delegate_func f1 lp1) (Delegate_func f2 lp2) =
     op_pluseq_del iter_as_func (Delegate_func f1 lp1) (Delegate_func f2' lp2)
   \<and> map_sum id m_funcList
        (fst (op_plus_del iter_as_func [Delegate_func f1 lp1, Delegate_func f2 lp2] 0 1)) =
     Inr [f1, iter_as_func 0]"
  by (simp add: op_pluseq_del_eq op_plus_del_def Let_def Delegate_func_def Delegate_copy_def)

text \<open>
  Claim C3, evaluated at \<open>d1 = Delegate(f)\<close>, \<open>d2 = Delegate(f)\<close>. In \<open>d1 -= d2\<close> the
  inner loop erases the entry of \<open>d1\<close> that equals \<open>f\<close> without taking the iterator
  \<open>erase\<close> returns, and its next test \<open>iter!=m_funcList.end()\<close> uses the invalidated
  iterator. The operator ends in that error; the claim asks for the empty sequence.
  The text of the operator is the same in both classes.
\<close>

theorem minuseq_delegate_uses_erased_iterator:
  "op_minuseq_del (Delegate_func f lp1) (Delegate_func f lp2) = Inl InvalidIterator"
  by (simp add: op_minuseq_del_eq Delegate_func_def)

text \<open>
  Claim C5, evaluated for the specialisation without an argument at a delegate holding
  \<open>f\<close> once and at one holding \<open>f\<close> twice. \<open>d -= f\<close> erases the first occurrence
  without taking the iterator \<open>erase\<close> returns and goes on with the invalidated
  iterator, so it ends in that error instead of leaving the sequence without \<open>f\<close>.
  The general template assigns the iterator and removes every occurrence
  (\<open>op_minuseq_func_eq\<close>).
\<close>

theorem minuseq_func_void_uses_erased_iterator:
  "op_minuseq_func_void (Delegate_func f lp) f = Inl InvalidIterator
   \<and> op_minuseq_func_void (op_pluseq_func (Delegate_func f lp) f) f = Inl InvalidIterator"
  by (simp add: op_minuseq_func_void_eq Delegate_func_def op_pluseq_func_def push_back_def)

subsection \<open>Indexing\<close>

text \<open>
  Claim C6. For a delegate with \<open>count\<close> targets, \<open>operator []\<close> fails with the range
  violation for every index \<open>i \<ge> count\<close> and returns nothing else; for every
  \<open>i < count\<close> it returns the \<open>i\<close>-th target in insertion order. In particular the
  index \<open>count - 1\<close> of a delegate that is not empty returns the last target (the
  index is an \<open>unsigned int\<close>, so \<open>count - 1\<close> has to fit 32 bits).
\<close>

theorem index_range_checked:
  "(length (m_funcList d) \<le> unat i \<longrightarrow> op_index d i = Inl OutOfRange)
   \<and> (unat i < length (m_funcList d) \<longrightarrow> op_index d i = Inr (m_funcList d ! unat i))
   \<and> (m_funcList d \<noteq> [] \<and> length (m_funcList d) \<le> 2 ^ 32 \<longrightarrow>
        op_index d (of_nat (length (m_funcList d) - 1)) = Inr (last (m_funcList d)))"
proof (intro conjI impI)
  assume "length (m_funcList d) \<le> unat i"
  then show "op_index d i = Inl OutOfRange"
    by (simp add: op_index_def EP_VERIFY_OUT_OF_RANGE_def)
next
  assume "unat i < length (m_funcList d)"
  then show "op_index d i = Inr (m_funcList d ! unat i)"
    by (simp add: op_index_def EP_VERIFY_OUT_OF_RANGE_def)
next
  assume a: "m_funcList d \<noteq> [] \<and> length (m_funcList d) \<le> 2 ^ 32"
  then have "length (m_funcList d) - 1 < 2 ^ LENGTH(32)" by (cases "m_funcList d") auto
  then have u: "unat (of_nat (length (m_funcList d) - 1) :: 32 word) = length (m_funcList d) - 1"
    by (simp add: unat_of_nat)
  have "length (m_funcList d) - 1 < length (m_funcList d)" using a by (cases "m_funcList d") auto
  then show "op_index d (of_nat (length (m_funcList d) - 1)) = Inr (last (m_funcList d))"
    using a u by (simp add: op_index_def EP_VERIFY_OUT_OF_RANGE_def last_conv_nth)
qed

theorem index_range_checked_witness:
  "length (m_funcList (op_pluseq_func (Delegate_func (7 :: nat) LOCK_POLICY_MUTEX) 9))
     \<le> unat (2 :: 32 word)
   \<and> op_index (op_pluseq_func (Delegate_func (7 :: nat) LOCK_POLICY_MUTEX) 9) 2 = Inl OutOfRange
   \<and> unat (0 :: 32 word)
     < length (m_funcList (op_pluseq_func (Delegate_func (7 :: nat) LOCK_POLICY_MUTEX) 9))
   \<and> op_index (op_pluseq_func (Delegate_func (7 :: nat) LOCK_POLICY_MUTEX) 9) 0 = Inr 7
   \<and> m_funcList (op_pluseq_func (Delegate_func (7 :: nat) LOCK_POLICY_MUTEX) 9) \<noteq> []
   \<and> length (m_funcList (op_pluseq_func (Delegate_func (7 :: nat) LOCK_POLICY_MUTEX) 9))
     \<le> 2 ^ 32
   \<and> op_index (op_pluseq_func (Delegate_func (7 :: nat) LOCK_POLICY_MUTEX) 9)
       (of_nat (length (m_funcList (op_pluseq_func (Delegate_func (7 :: nat) LOCK_POLICY_MUTEX) 9)) - 1))
     = Inr 9"
  using index_range_checked [of "op_pluseq_func (Delegate_func (7 :: nat) LOCK_POLICY_MUTEX) 9" 2]
    index_range_checked [of "op_pluseq_func (Delegate_func (7 :: nat) LOCK_POLICY_MUTEX) 9" 0]
  by (simp add: op_pluseq_func_def Delegate_func_def push_back_def)

subsection \<open>The operators that build a new delegate\<close>

text \<open>
  Claim C7, evaluated at a callable \<open>f\<close> and \<open>d = Delegate(g)\<close>. The free operator
  \<open>f + d\<close> builds a delegate from \<open>f\<close> and appends \<open>d\<close> with \<open>operator +=\<close>, which
  stores the iterator over the targets of \<open>d\<close> and not the target: the result is \<open>f\<close>
  followed by that iterator, whatever function pointer it is taken for, and the result
  is the same for any other target \<open>g'\<close> in the place of \<open>g\<close>. The claim asks for
  the sequence \<open>f, g\<close>.
\<close>

theorem prepend_stores_iterators:
  "m_funcList (plus_func_del iter_as_func EP_LOCK_POLICY f (Delegate_func g lp)) =
     [f, iter_as_func 0]
   \<and> plus_func_del iter_as_func EP_LOCK_POLICY f (Delegate_func g lp) =
     plus_func_del iter_as_func EP_LOCK_POLICY f (Delegate_func g' lp)"
  by (simp add: plus_func_del_def op_pluseq_del_eq Delegate_func_def)

text \<open>
  The operators that return a new delegate never write to a delegate of the caller,
  \<open>*this\<close> included: the store after the call is the store before it, whether the
  call returns a delegate or stops with an error, and also when \<open>right\<close> is \<open>*this\<close>.
  With a callable the delegate returned carries the sequence of \<open>*this\<close> followed by
  \<open>func\<close>, respectively the sequence of \<open>*this\<close> without the entries equal to \<open>func\<close>.
\<close>

lemma combine_subtract_leave_store:
  "snd (op_plus_func st this func) = st
   \<and> snd (op_plus_del iter_as_func st this right) = st
   \<and> snd (op_minus_func st this func) = st
   \<and> snd (op_minus_func_void st this func) = st
   \<and> snd (op_minus_del st this right) = st
   \<and> map_sum id m_funcList (fst (op_plus_func st this func)) =
       Inr (m_funcList (st ! this) @ [func])
   \<and> map_sum id m_funcList (fst (op_minus_func st this func)) =
       Inr (filter (\<lambda>x. x \<noteq> func) (m_funcList (st ! this)))"
proof (intro conjI)
  show "snd (op_plus_func st this func) = st"
    by (simp add: op_plus_func_def Let_def)
  show "snd (op_plus_del iter_as_func st this right) = st"
    by (simp add: op_plus_del_def Let_def)
  show "snd (op_minus_func st this func) = st"
    by (simp add: op_minus_func_def Let_def split: sum.split)
  show "snd (op_minus_func_void st this func) = st"
    by (simp add: op_minus_func_void_def Let_def split: sum.split)
  show "snd (op_minus_del st this right) = st"
    by (simp add: op_minus_del_def Let_def split: sum.split)
  show "map_sum id m_funcList (fst (op_plus_func st this func)) =
           Inr (m_funcList (st ! this) @ [func])"
    by (simp add: op_plus_func_def Let_def op_pluseq_func_def push_back_def Delegate_copy_def)
  show "map_sum id m_funcList (fst (op_minus_func st this func)) =
           Inr (filter (\<lambda>x. x \<noteq> func) (m_funcList (st ! this)))"
    by (simp add: op_minus_func_def Let_def op_minuseq_func_eq Delegate_copy_def)
qed

text \<open>
  Claim C8, evaluated with a delegate as the argument. In a store holding
  \<open>d = Delegate(f1)\<close> and \<open>right = Delegate(f2)\<close>, \<open>d + right\<close> leaves the store as it
  was, but the delegate it returns carries \<open>f1\<close> followed by the iterator over the
  targets of \<open>right\<close>, the same for any other target \<open>f2'\<close> in the place of \<open>f2\<close>, and
  not the combined sequence \<open>f1, f2\<close>. With \<open>d = Delegate(f)\<close> and
  \<open>right = Delegate(f)\<close>, \<open>d - right\<close> leaves the store as it was too, but it returns
  no delegate: the copy runs into the erased iterator. The claim asks for a new
  delegate carrying the combined, respectively the subtracted, sequence.
\<close>

theorem combine_subtract_delegate_outcomes:
  "op_plus_del iter_as_func [Delegate_func f1 lp1, Delegate_func f2 lp2] 0 1 =
     (Inr \<lparr>m_funcList = [f1, iter_as_func 0], m_lock = new_lock lp1, m_lockPolicy = lp1\<rparr>,
      [Delegate_func f1 lp1, Delegate_func f2 lp2])
   \<and> fst (op_plus_del iter_as_func [Delegate_func f1 lp1, Delegate_func f2 lp2] 0 1) =
     fst (op_plus_del iter_as_func [Delegate_func f1 lp1, Delegate_func f2' lp2] 0 1)
   \<and> op_minus_del [Delegate_func f lp1, Delegate_func f lp2] 0 1 =
     (Inl InvalidIterator, [Delegate_func f lp1, Delegate_func f lp2])"
  by (simp add: op_plus_del_def op_minus_del_def Let_def op_pluseq_del_eq op_minuseq_del_eq
        Delegate_func_def Delegate_copy_def)

subsection \<open>Removing a callable that is absent\<close>

text \<open>
  Claim C9. For a delegate that is not empty and a callable \<open>func\<close> that does not occur
  in its target sequence, \<open>d -= func\<close> raises no error and returns the delegate exactly
  as it was. This holds for the general template and for the specialisation.
\<close>

theorem remove_absent_is_noop:
  assumes "m_funcList d \<noteq> []" and "func \<notin> set (m_funcList d)"
  shows "op_minuseq_func d func = Inr d \<and> op_minuseq_func_void d func = Inr d"
proof -
  have "filter (\<lambda>x. x \<noteq> func) (m_funcList d) = m_funcList d"
    using assms(2) by (auto simp: filter_id_conv)
  then show ?thesis
    using assms(2) by (simp add: op_minuseq_func_eq op_minuseq_func_void_eq)
qed

theorem remove_absent_is_noop_witness:
  "m_funcList (Delegate_func (1 :: nat) LOCK_POLICY_NONE) \<noteq> []
   \<and> (2 :: nat) \<notin> set (m_funcList (Delegate_func (1 :: nat) LOCK_POLICY_NONE))
   \<and> op_minuseq_func (Delegate_func (1 :: nat) LOCK_POLICY_NONE) 2 =
       Inr (Delegate_func 1 LOCK_POLICY_NONE)
   \<and> op_minuseq_func_void (Delegate_func (1 :: nat) LOCK_POLICY_NONE) 2 =
       Inr (Delegate_func 1 LOCK_POLICY_NONE)"
proof -
  have h1: "m_funcList (Delegate_func (1 :: nat) LOCK_POLICY_NONE) \<noteq> []"
    by (simp add: Delegate_func_def)
  have h2: "(2 :: nat) \<notin> set (m_funcList (Delegate_func (1 :: nat) LOCK_POLICY_NONE))"
    by (simp add: Delegate_func_def)
  show ?thesis using h1 h2 remove_absent_is_noop [OF h1 h2] by simp
qed

end
